theory Spec2Isabelle
  imports Complex_Main "HOL-Library.Sublist"
begin

section \<open>The MTB-CNN data preparation and evaluation utilities\<close>

text \<open>
  A shallow embedding of \<^verbatim>\<open>src/md_cnn/model_training/tb_cnn_codebase_tf1.py\<close>.
  Every Python function that is verified below becomes a HOL function of the same name.
  A raised exception is a value \<open>Inl e\<close> of the result type \<open>py_error + 'a\<close>.
  Floating point numbers are idealised as real numbers; where the source divides
  by zero the outcome is written out (a Python \<^verbatim>\<open>ZeroDivisionError\<close>, or the
  special values of a tensor division).
\<close>

datatype py_error = IndexError | KeyError string | TypeError | ValueError
  | ZeroDivisionError | NameError string | AttributeError | UndefinedVariableError string

subsection \<open>\<^verbatim>\<open>get_one_hot\<close>\<close>

text \<open>
  The module constant \<^verbatim>\<open>BASE_TO_COLUMN = {'A': 0, 'C': 1, 'T': 2, 'G': 3, '-': 4}\<close>
  and the set of its keys.
\<close>

definition BASE_TO_COLUMN :: "char \<Rightarrow> nat option" where
  "BASE_TO_COLUMN =
     map_of [(CHR ''A'', 0), (CHR ''C'', 1), (CHR ''T'', 2), (CHR ''G'', 3), (CHR ''-'', 4)]"

definition alphabet :: "char set" where
  "alphabet = {CHR ''A'', CHR ''C'', CHR ''T'', CHR ''G'', CHR ''-''}"

text \<open>
  \<^verbatim>\<open>BASE_TO_COLUMN.get(b, b)\<close> yields the column number of a known symbol and the
  symbol itself (a string) otherwise, so the list \<^verbatim>\<open>seq_in_index\<close> may mix integers
  and strings.
\<close>

datatype seq_index = is_Column: Column (the_column: nat) | Symbol char

definition get_or_self :: "char \<Rightarrow> seq_index" where
  "get_or_self b = (case BASE_TO_COLUMN b of Some c \<Rightarrow> Column c | None \<Rightarrow> Symbol b)"

text \<open>
  \<^verbatim>\<open>np.array(seq_in_index)\<close> chooses its element type from the list: an empty list
  gives a \<^verbatim>\<open>float64\<close> array, a list of integers an \<^verbatim>\<open>int64\<close> array, and a list with
  at least one string a unicode string array (integers in it are converted to strings).
\<close>

datatype np_dtype = Float64 | Int64 | UnicodeStr

definition np_array_dtype :: "seq_index list \<Rightarrow> np_dtype" where
  "np_array_dtype xs =
     (if xs = [] then Float64 else if list_all is_Column xs then Int64 else UnicodeStr)"

text \<open>
  The assignment \<^verbatim>\<open>one_hot[np.arange(seq_len), np.array(seq_in_index)] = 1\<close> writes
  a one into row \<open>i\<close> at the \<open>i\<close>-th column number; a column number outside the
  five columns is an \<^verbatim>\<open>IndexError\<close>.
\<close>

definition assign_ones :: "real list list \<Rightarrow> nat list \<Rightarrow> py_error + real list list" where
  "assign_ones one_hot cols =
     (if list_all (\<lambda>c. c < 5) cols
      then Inr (map2 (\<lambda>row c. row[c := 1]) one_hot cols)
      else Inl IndexError)"

text \<open>
  numpy accepts an index array only if its element type is integer or boolean; an
  array of any other element type raises \<^verbatim>\<open>IndexError\<close> (``arrays used as indices
  must be of integer (or boolean) type''), also when the array is empty: only an
  empty index that is not yet an array (such as the list \<^verbatim>\<open>[]\<close>) is cast to
  integers. The result is the \<open>L \<times> 5\<close> matrix as the list of its rows.
\<close>

definition get_one_hot :: "string \<Rightarrow> py_error + real list list" where
  "get_one_hot sequence =
     (let seq_len = length sequence;
          seq_in_index = map get_or_self sequence;
          one_hot = replicate seq_len (replicate 5 0)
      in if np_array_dtype seq_in_index \<noteq> Int64 then Inl IndexError
         else assign_ones one_hot (map the_column seq_in_index))"

subsection \<open>\<^verbatim>\<open>rs_encoding_to_numeric\<close>\<close>

text \<open>
  A cell of a phenotype table is a missing value, a string or an integer. A data
  frame is its row index and the association list of its columns, each column being
  the list of its cells; a two-dimensional array (\<^verbatim>\<open>DataFrame.values\<close>) is
  represented by the list of its columns. Column labels are taken to be distinct.
\<close>

datatype cell = NullV | StrV string | IntV int

record dataframe =
  index :: "cell list"
  columns :: "(string \<times> cell list) list"

text \<open>Python's \<^verbatim>\<open>str\<close> on an integer: its decimal digits, after a minus sign if negative.\<close>

definition digit_chars :: string where
  "digit_chars = ''0123456789''"

fun str_nat :: "nat \<Rightarrow> string" where
  "str_nat n =
     (if n < 10 then [digit_chars ! n] else str_nat (n div 10) @ [digit_chars ! (n mod 10)])"

declare str_nat.simps [simp del]

definition str_int :: "int \<Rightarrow> string" where
  "str_int i = (if i < 0 then CHR ''-'' # str_nat (nat (- i)) else str_nat (nat i))"

text \<open>
  \<^verbatim>\<open>df_geno_pheno[drugs_list]\<close>: the listed columns in the listed order; a label that
  is not a column raises \<^verbatim>\<open>KeyError\<close>.
\<close>

fun select_columns ::
  "(string \<times> cell list) list \<Rightarrow> string list \<Rightarrow> py_error + (string \<times> cell list) list" where
  "select_columns cols [] = Inr []"
| "select_columns cols (d # ds) =
     (case map_of cols d of
        None \<Rightarrow> Inl (KeyError d)
      | Some c \<Rightarrow>
          (case select_columns cols ds of
             Inl e \<Rightarrow> Inl e
           | Inr rest \<Rightarrow> Inr ((d, c) # rest)))"

text \<open>\<^verbatim>\<open>fillna\<close> and \<^verbatim>\<open>astype(str)\<close>, cell by cell.\<close>

definition fillna :: "string \<Rightarrow> cell \<Rightarrow> cell" where
  "fillna v c = (case c of NullV \<Rightarrow> StrV v | _ \<Rightarrow> c)"

definition astype_str :: "cell \<Rightarrow> string" where
  "astype_str c = (case c of NullV \<Rightarrow> ''nan'' | StrV s \<Rightarrow> s | IntV i \<Rightarrow> str_int i)"

text \<open>
  The dictionary \<^verbatim>\<open>resistance_categories\<close> in its insertion order, and one round of
  the loop over its items: \<^verbatim>\<open>y_all[y_all_rs == key] = val\<close>.
\<close>

definition resistance_categories :: "(string \<times> int) list" where
  "resistance_categories = [(''R'', 0), (''S'', 1), (''-1.0'', -1), (''-1'', -1)]"

definition assign_where ::
  "string list list \<Rightarrow> string \<times> int \<Rightarrow> cell list list \<Rightarrow> cell list list" where
  "assign_where y_all_rs kv y_all =
     map2 (\<lambda>rs_col col. map2 (\<lambda>s c. if s = fst kv then IntV (snd kv) else c) rs_col col)
       y_all_rs y_all"

definition rs_encoding_to_numeric ::
  "dataframe \<Rightarrow> string list \<Rightarrow> py_error + dataframe \<times> cell list list" where
  "rs_encoding_to_numeric df_geno_pheno drugs_list =
     (case select_columns (columns df_geno_pheno) drugs_list of
        Inl e \<Rightarrow> Inl e
      | Inr selected \<Rightarrow>
          let filled = map (map (fillna ''-1'')) (map snd selected);
              y_all_rs = map (map astype_str) filled;
              y_all_copy = map (map StrV) y_all_rs;
              y_all_cells = fold (assign_where y_all_rs) resistance_categories y_all_copy;
              y_all = \<lparr>index = map (\<lambda>i. IntV (int i)) [0..<length (index df_geno_pheno)],
                       columns = zip (map fst selected) y_all_cells\<rparr>;
              y_all_array = map snd (columns y_all)
          in Inr (y_all, y_all_array))"

text \<open>
  What the pipeline leaves in one cell, for the statements below: the string a cell
  has after \<^verbatim>\<open>fillna\<close> and \<^verbatim>\<open>astype(str)\<close> is replaced by a number if it is a key of
  \<^verbatim>\<open>resistance_categories\<close> and kept otherwise (lemma \<open>encode_cells\<close>).
\<close>

definition encoded_string :: "string \<Rightarrow> cell" where
  "encoded_string s =
     (if s = ''-1'' \<or> s = ''-1.0'' then IntV (- 1)
      else if s = ''S'' then IntV 1
      else if s = ''R'' then IntV 0
      else StrV s)"

definition encoded_cell :: "cell \<Rightarrow> cell" where
  "encoded_cell c = encoded_string (astype_str (fillna ''-1'' c))"

subsection \<open>\<^verbatim>\<open>alpha_mat\<close>\<close>

text \<open>The list of drugs is fixed inside the function; its length is \<^verbatim>\<open>num_drugs\<close>.\<close>

definition drugs :: "string list" where
  "drugs = [''RIFAMPICIN'', ''ISONIAZID'', ''PYRAZINAMIDE'',
            ''ETHAMBUTOL'', ''STREPTOMYCIN'', ''LEVOFLOXACIN'',
            ''CAPREOMYCIN'', ''AMIKACIN'', ''MOXIFLOXACIN'',
            ''OFLOXACIN'', ''KANAMYCIN'', ''ETHIONAMIDE'',
            ''CIPROFLOXACIN'']"

definition num_drugs :: nat where
  "num_drugs = length drugs"

text \<open>
  \<^verbatim>\<open>len(np.squeeze(np.where(cond)))\<close> for a one-dimensional condition: \<^verbatim>\<open>np.where\<close>
  returns a one-element tuple holding the \<open>k\<close> indices where the condition holds,
  \<^verbatim>\<open>np.squeeze\<close> turns the tuple into an array of shape \<open>(1, k)\<close> and drops every axis
  of length one. For \<open>k \<noteq> 1\<close> the outcome has shape \<open>(k)\<close> and length \<open>k\<close>; for
  \<open>k = 1\<close> it has no axis left, and \<^verbatim>\<open>len\<close> of such an array raises \<^verbatim>\<open>TypeError\<close>.
\<close>

definition len_squeeze_where :: "bool list \<Rightarrow> py_error + nat" where
  "len_squeeze_where cond =
     (let k = length (filter (\<lambda>b. b) cond) in if k = 1 then Inl TypeError else Inr k)"

text \<open>
  The label matrix and the alpha matrix are lists of columns, one column per drug
  and one entry per isolate, since the function only ever reads and writes whole
  columns (\<^verbatim>\<open>y_cnn[:, drug]\<close>, \<^verbatim>\<open>alpha_matrix[:, drug]\<close>). The loop over
  \<^verbatim>\<open>range(num_drugs)\<close>: a column number beyond the matrix raises \<^verbatim>\<open>IndexError\<close>, and
  \<^verbatim>\<open>resistant / float(resistant + sensitive)\<close> raises \<^verbatim>\<open>ZeroDivisionError\<close> when no
  isolate is labelled. The two masked assignments follow in the order of the source.
\<close>

fun alpha_loop ::
  "int list list \<Rightarrow> real \<Rightarrow> nat list \<Rightarrow> real list list \<Rightarrow> py_error + real list list" where
  "alpha_loop y_cnn weight [] alpha_matrix = Inr alpha_matrix"
| "alpha_loop y_cnn weight (drug # rest) alpha_matrix =
     (if length y_cnn \<le> drug then Inl IndexError
      else
        (case len_squeeze_where (map (\<lambda>y. y = 0) (y_cnn ! drug)) of
           Inl e \<Rightarrow> Inl e
         | Inr resistant \<Rightarrow>
             (case len_squeeze_where (map (\<lambda>y. y = 1) (y_cnn ! drug)) of
                Inl e \<Rightarrow> Inl e
              | Inr sensitive \<Rightarrow>
                  if resistant + sensitive = 0 then Inl ZeroDivisionError
                  else
                    let alphas_drug = real resistant / real (resistant + sensitive);
                        col1 = map2 (\<lambda>y a. if y = 1 then weight * alphas_drug else a)
                                 (y_cnn ! drug) (alpha_matrix ! drug);
                        col2 = map2 (\<lambda>y a. if y = 0 then - alphas_drug else a)
                                 (y_cnn ! drug) col1
                    in alpha_loop y_cnn weight rest (alpha_matrix[drug := col2]))))"

definition alpha_mat :: "int list list \<Rightarrow> 'df \<Rightarrow> real \<Rightarrow> py_error + real list list" where
  "alpha_mat subset_y df_geno_pheno weight =
     (let y_cnn = subset_y;
          alpha_matrix = map (map (\<lambda>_. 0)) y_cnn
      in alpha_loop y_cnn weight [0..<num_drugs] alpha_matrix)"

text \<open>
  For the statements about the result: the resistant fraction of a drug column as
  the specification defines it, \<open>count(label = 0) / (count(label = 0) + count(label = 1))\<close>,
  and the column that the two masked assignments of one round of the loop leave.
\<close>

definition resistant_fraction :: "int list \<Rightarrow> real" where
  "resistant_fraction col =
     real (length (filter (\<lambda>y. y = 0) col))
       / real (length (filter (\<lambda>y. y = 0) col) + length (filter (\<lambda>y. y = 1) col))"

definition alpha_column :: "real \<Rightarrow> int list \<Rightarrow> real list \<Rightarrow> real list" where
  "alpha_column weight col old =
     map2 (\<lambda>y a. if y = 0 then - resistant_fraction col else a) col
       (map2 (\<lambda>y a. if y = 1 then weight * resistant_fraction col else a) col old)"

subsection \<open>\<^verbatim>\<open>masked_multi_weighted_bce\<close>\<close>

text \<open>
  A tensor division does not raise: a finite value divided by zero is an infinity,
  and zero divided by zero is not-a-number. \<^verbatim>\<open>K.epsilon()\<close> is the backend's fuzz
  factor, \<open>10\<^sup>-\<^sup>7\<close> unless reconfigured; \<^verbatim>\<open>K.clip\<close> is the minimum of the upper
  bound and the maximum of the lower bound and the value.
\<close>

datatype tf_float = Fin real | PInf | NInf | NaN

definition K_epsilon :: real where
  "K_epsilon = 1 / 10 ^ 7"

definition K_clip :: "real \<Rightarrow> real \<Rightarrow> real \<Rightarrow> real" where
  "K_clip x min_value max_value = min (max x min_value) max_value"

definition tf_divide :: "real \<Rightarrow> real \<Rightarrow> tf_float" where
  "tf_divide x y =
     (if y \<noteq> 0 then Fin (x / y) else if x = 0 then NaN else if 0 < x then PInf else NInf)"

text \<open>
  The loss of one isolate: \<open>alpha\<close> and \<open>y_pred0\<close> are the isolate's rows (one entry
  per drug, both of the same length), and the sums run over the last axis.
\<close>

definition masked_multi_weighted_bce :: "real list \<Rightarrow> real list \<Rightarrow> tf_float" where
  "masked_multi_weighted_bce alpha y_pred0 =
     (let y_pred = map (\<lambda>p. K_clip p K_epsilon (1 - K_epsilon)) y_pred0;
          y_true' = map (\<lambda>a. if 0 < a then 1 else 0) alpha;
          mask = map (\<lambda>a. if a \<noteq> 0 then 1 else 0) alpha;
          num_not_missing = sum_list mask;
          abs_alpha = map abs alpha;
          bce = map (\<lambda>(a, t, p). - a * t * ln p - (1 - a) * (1 - t) * ln (1 - p))
                  (zip abs_alpha (zip y_true' y_pred));
          masked_bce = map2 (\<lambda>b m. b * m) bce mask
      in tf_divide (sum_list masked_bce) num_not_missing)"

text \<open>
  The loss as the specification words it, for comparison with the function above:
  the binary cross-entropy of one drug multiplied by the weight \<open>\<bar>alpha\<bar>\<close>, zero for
  an unlabelled drug, summed and divided by the number of labelled drugs.
\<close>

definition weighted_bce_per_drug :: "real \<Rightarrow> real \<Rightarrow> real" where
  "weighted_bce_per_drug a p =
     (let weight = \<bar>a\<bar>;
          y_true = (if 0 < a then 1 else 0);
          q = K_clip p K_epsilon (1 - K_epsilon)
      in weight * (- y_true * ln q - (1 - y_true) * ln (1 - q)))"

definition mean_weighted_bce_over_labeled :: "real list \<Rightarrow> real list \<Rightarrow> tf_float" where
  "mean_weighted_bce_over_labeled alpha y_pred =
     tf_divide
       (sum_list
          (map (\<lambda>(a, p). if a = 0 then 0 else weighted_bce_per_drug a p) (zip alpha y_pred)))
       (real (length (filter (\<lambda>a. a \<noteq> 0) alpha)))"

subsection \<open>\<^verbatim>\<open>create_X\<close>\<close>

text \<open>
  The merged table holds one-hot matrices (lists of rows of five numbers) in the
  columns whose label contains \<^verbatim>\<open>one_hot\<close>, and other cells elsewhere. Rows are
  addressed by position, the row labels being taken as distinct.
\<close>

datatype entry = OneHot (matrix: "real list list") | Scalar cell

record geno_table =
  strains :: "string list"
  table_columns :: "(string \<times> entry list) list"

text \<open>
  A four-dimensional array: its shape and its elements by position. Positions
  outside the shape are never read.
\<close>

record ndarray4 =
  shape :: "nat \<times> nat \<times> nat \<times> nat"
  elems :: "nat \<Rightarrow> nat \<Rightarrow> nat \<Rightarrow> nat \<Rightarrow> real"

text \<open>Python's substring test \<^verbatim>\<open>needle in s\<close>.\<close>

fun contains :: "string \<Rightarrow> string \<Rightarrow> bool" where
  "contains needle [] = (needle = [])"
| "contains needle (c # cs) = (prefix needle (c # cs) \<or> contains needle cs)"

text \<open>
  \<^verbatim>\<open>_get_shapes\<close>: for every column whose label contains \<^verbatim>\<open>one_hot\<close>, the number of
  rows of the matrix in the first row of the table. An empty table has no first row
  (\<^verbatim>\<open>IndexError\<close>), and a cell that is no array has no \<^verbatim>\<open>shape\<close>.
\<close>

fun get_shapes :: "(string \<times> entry list) list \<Rightarrow> py_error + (string \<times> nat) list" where
  "get_shapes [] = Inr []"
| "get_shapes ((column, es) # rest) =
     (if contains ''one_hot'' column then
        (case es of
           [] \<Rightarrow> Inl IndexError
         | OneHot m # _ \<Rightarrow>
             (case get_shapes rest of
                Inl e \<Rightarrow> Inl e
              | Inr shapes \<Rightarrow> Inr ((column, length m) # shapes))
         | Scalar _ # _ \<Rightarrow> Inl AttributeError)
      else get_shapes rest)"

definition np_zeros4 :: "nat \<times> nat \<times> nat \<times> nat \<Rightarrow> ndarray4" where
  "np_zeros4 s = \<lparr>shape = s, elems = (\<lambda>i c l g. 0)\<rparr>"

text \<open>
  \<^verbatim>\<open>X[idx, :, range(0, one_hot_gene.shape[0]), gene_index] = one_hot_gene\<close>. The index
  combines integers and a list of positions around a slice, so the selected block has
  the positions first and the sliced axis second: element \<open>(l, c)\<close> of the matrix goes
  to \<open>X[idx, c, l, gene_index]\<close>. A position beyond the length axis raises
  \<^verbatim>\<open>IndexError\<close>; a matrix whose rows have neither the width of the sliced axis nor
  width one cannot be broadcast (\<^verbatim>\<open>ValueError\<close>).
\<close>

definition assign_locus :: "ndarray4 \<Rightarrow> nat \<Rightarrow> nat \<Rightarrow> entry \<Rightarrow> py_error + ndarray4" where
  "assign_locus X idx gene_index e =
     (case e of
        Scalar _ \<Rightarrow> Inl AttributeError
      | OneHot one_hot_gene \<Rightarrow>
          (case shape X of (n, k, L, G) \<Rightarrow>
             if \<not> (idx < n \<and> gene_index < G \<and> length one_hot_gene \<le> L) then Inl IndexError
             else if \<not> (list_all (\<lambda>row. length row = k) one_hot_gene
                        \<or> list_all (\<lambda>row. length row = 1) one_hot_gene) then Inl ValueError
             else Inr (X\<lparr>elems := (\<lambda>i c l g.
                    if i = idx \<and> g = gene_index \<and> l < length one_hot_gene \<and> c < k
                    then (if length (one_hot_gene ! l) = k then one_hot_gene ! l ! c
                          else one_hot_gene ! l ! 0)
                    else elems X i c l g)\<rparr>)))"

text \<open>The inner loop over the loci and the outer loop over the strains.\<close>

fun gene_loop ::
  "(string \<times> entry list) list \<Rightarrow> nat \<Rightarrow> (nat \<times> string) list \<Rightarrow> ndarray4
     \<Rightarrow> py_error + ndarray4" where
  "gene_loop cols idx [] X = Inr X"
| "gene_loop cols idx ((gene_index, gene) # rest) X =
     (case map_of cols gene of
        None \<Rightarrow> Inl (KeyError gene)
      | Some es \<Rightarrow>
          if length es \<le> idx then Inl IndexError
          else
            (case assign_locus X idx gene_index (es ! idx) of
               Inl e \<Rightarrow> Inl e
             | Inr X' \<Rightarrow> gene_loop cols idx rest X'))"

fun strain_loop ::
  "(string \<times> entry list) list \<Rightarrow> (nat \<times> string) list \<Rightarrow> nat list \<Rightarrow> ndarray4
     \<Rightarrow> py_error + ndarray4" where
  "strain_loop cols genes [] X = Inr X"
| "strain_loop cols genes (idx # rest) X =
     (case gene_loop cols idx genes X of
        Inl e \<Rightarrow> Inl e
      | Inr X' \<Rightarrow> strain_loop cols genes rest X')"

text \<open>\<^verbatim>\<open>max\<close> of an empty list raises \<^verbatim>\<open>ValueError\<close>.\<close>

definition create_X :: "geno_table \<Rightarrow> py_error + ndarray4" where
  "create_X df_geno_pheno =
     (case get_shapes (table_columns df_geno_pheno) of
        Inl e \<Rightarrow> Inl e
      | Inr shapes \<Rightarrow>
          if shapes = [] then Inl ValueError
          else
            let n_genes = length shapes;
                L_longest = Max (set (map snd shapes));
                n_strains = length (strains df_geno_pheno);
                X = np_zeros4 (n_strains, 5, L_longest, n_genes)
            in strain_loop (table_columns df_geno_pheno)
                 (zip [0..<n_genes] (map fst shapes)) [0..<n_strains] X)"

subsection \<open>\<^verbatim>\<open>split_into_traintest\<close>\<close>

text \<open>
  The names bound at the top level of the module: its imports, the constant
  \<^verbatim>\<open>BASE_TO_COLUMN\<close> and its functions. A name used inside a function that is neither
  local to it nor bound here (nor a builtin) raises \<^verbatim>\<open>NameError\<close> when it is read.
\<close>

definition module_globals :: "string list" where
  "module_globals =
     [''sys'', ''glob'', ''os'', ''yaml'', ''sparse'', ''np'', ''pd'', ''K'', ''tf'', ''SeqIO'',
      ''BASE_TO_COLUMN'', ''get_one_hot'', ''sequence_dictionary'', ''make_genotype_df'',
      ''rs_encoding_to_numeric'', ''alpha_mat'', ''make_geno_pheno_pkl'', ''create_X'',
      ''masked_multi_weighted_bce'', ''masked_weighted_accuracy'', ''load_alpha_matrix'',
      ''split_into_traintest'', ''get_threshold_val'']"

text \<open>
  \<^verbatim>\<open>df.query(...).index\<close> after \<^verbatim>\<open>reset_index(drop=True)\<close>: the positions of the rows
  that satisfy the condition, in increasing order.
\<close>

definition query_index :: "(entry \<Rightarrow> bool) \<Rightarrow> entry list \<Rightarrow> nat list" where
  "query_index P es = filter (\<lambda>i. P (es ! i)) [0..<length es]"

definition take_rows :: "'r list \<Rightarrow> nat list \<Rightarrow> py_error + 'r list" where
  "take_rows X_all inds =
     (if list_all (\<lambda>i. i < length X_all) inds then Inr (map (\<lambda>i. X_all ! i) inds)
      else Inl IndexError)"

text \<open>
  The tensor is the list of its rows along the first axis (one per isolate); the
  conversions between the sparse and the dense form do not change its contents. The
  first argument lists the global names in scope. The two calls of
  \<^verbatim>\<open>sparse.save_npz\<close> read the names \<^verbatim>\<open>pkl_file_sparse_train\<close> and
  \<^verbatim>\<open>pkl_file_sparse_test\<close>, which are no parameters and no local variables of the
  function; what the calls write to disk is not part of the model.
\<close>

definition split_into_traintest ::
  "string list \<Rightarrow> 'r list \<Rightarrow> geno_table \<Rightarrow> string \<Rightarrow> py_error + 'r list \<times> 'r list" where
  "split_into_traintest globals X_sparse df_geno_pheno category =
     (let X_all = X_sparse in
      case map_of (table_columns df_geno_pheno) ''category'' of
        None \<Rightarrow> Inl (UndefinedVariableError ''category'')
      | Some cats \<Rightarrow>
          let train_indices = query_index (\<lambda>e. e = Scalar (StrV category)) cats;
              test_indices = query_index (\<lambda>e. e \<noteq> Scalar (StrV category)) cats
          in (case take_rows X_all train_indices of
                Inl e \<Rightarrow> Inl e
              | Inr X_train \<Rightarrow>
                  (case take_rows X_all test_indices of
                     Inl e \<Rightarrow> Inl e
                   | Inr X_test \<Rightarrow>
                       if ''pkl_file_sparse_train'' \<notin> set globals
                       then Inl (NameError ''pkl_file_sparse_train'')
                       else if ''pkl_file_sparse_test'' \<notin> set globals
                       then Inl (NameError ''pkl_file_sparse_test'')
                       else Inr (X_train, X_test))))"

subsection \<open>\<^verbatim>\<open>get_threshold_val\<close>\<close>

text \<open>
  The returned dictionary, and the thresholds \<^verbatim>\<open>np.linspace(0, 1, 101)\<close> as the
  exact hundredths.
\<close>

record threshold_result =
  threshold :: real
  spec :: real
  sens :: real

definition thresholds :: "real list" where
  "thresholds = map (\<lambda>k. real k / 100) [0..<101]"

text \<open>
  The loop over the samples counts the false and the true positives at one
  threshold; the label \<^verbatim>\<open>y_true[i]\<close> is read only for a sample predicted resistant.
\<close>

fun sample_loop ::
  "int list \<Rightarrow> real list \<Rightarrow> real \<Rightarrow> nat list \<Rightarrow> nat \<times> nat \<Rightarrow> py_error + nat \<times> nat" where
  "sample_loop y_true y_pred t [] (fp, tp) = Inr (fp, tp)"
| "sample_loop y_true y_pred t (i # rest) (fp, tp) =
     (if y_pred ! i < t then
        (if length y_true \<le> i then Inl IndexError
         else sample_loop y_true y_pred t rest
                (if y_true ! i = 1 then fp + 1 else fp, if y_true ! i = 0 then tp + 1 else tp))
      else sample_loop y_true y_pred t rest (fp, tp))"

text \<open>
  The loop over the thresholds appends one rate to each of the two lists;
  \<^verbatim>\<open>fp_ / float(num_sensitive)\<close> and \<^verbatim>\<open>tp_ / float(num_resistant)\<close> are divisions of
  Python numbers and raise \<^verbatim>\<open>ZeroDivisionError\<close> on a zero count.
\<close>

fun threshold_loop ::
  "int list \<Rightarrow> real list \<Rightarrow> nat \<Rightarrow> nat \<Rightarrow> real list \<Rightarrow> py_error + real list \<times> real list" where
  "threshold_loop y_true y_pred num_sensitive num_resistant [] = Inr ([], [])"
| "threshold_loop y_true y_pred num_sensitive num_resistant (t # ts) =
     (case sample_loop y_true y_pred t [0..<length y_pred] (0, 0) of
        Inl e \<Rightarrow> Inl e
      | Inr (fp, tp) \<Rightarrow>
          if num_sensitive = 0 then Inl ZeroDivisionError
          else if num_resistant = 0 then Inl ZeroDivisionError
          else
            (case threshold_loop y_true y_pred num_sensitive num_resistant ts of
               Inl e \<Rightarrow> Inl e
             | Inr (fpr, tpr) \<Rightarrow>
                 Inr (real fp / real num_sensitive # fpr, real tp / real num_resistant # tpr)))"

text \<open>
  \<^verbatim>\<open>best_inds\<close> holds the positions of the maximal objective; the source takes the
  single position if there is one and the last position otherwise.
\<close>

definition get_threshold_val :: "int list \<Rightarrow> real list \<Rightarrow> py_error + threshold_result" where
  "get_threshold_val y_true y_pred =
     (let num_sensitive = length (filter (\<lambda>y. y = 1) y_true);
          num_resistant = length (filter (\<lambda>y. y = 0) y_true)
      in case threshold_loop y_true y_pred num_sensitive num_resistant thresholds of
           Inl e \<Rightarrow> Inl e
         | Inr (fpr, tpr) \<Rightarrow>
             let valid_inds = [0..<101];
                 sens_spec_sum = map2 (\<lambda>f t. (1 - f) + t) fpr tpr;
                 best_sens_spec_sum = Max (set (map (\<lambda>i. sens_spec_sum ! i) valid_inds));
                 best_inds = filter (\<lambda>j. best_sens_spec_sum = sens_spec_sum ! (valid_inds ! j))
                               [0..<length valid_inds];
                 best_sens_spec_ind =
                   (if length best_inds = 1 then hd best_inds else last best_inds)
             in Inr \<lparr>threshold = thresholds ! (valid_inds ! best_sens_spec_ind),
                     spec = 1 - fpr ! (valid_inds ! best_sens_spec_ind),
                     sens = tpr ! (valid_inds ! best_sens_spec_ind)\<rparr>)"

section \<open>The one-hot encoder\<close>

lemma BASE_TO_COLUMN_cases:
  "BASE_TO_COLUMN b =
     (if b = CHR ''A'' then Some 0 else if b = CHR ''C'' then Some 1
      else if b = CHR ''T'' then Some 2 else if b = CHR ''G'' then Some 3
      else if b = CHR ''-'' then Some 4 else None)"
  by (simp add: BASE_TO_COLUMN_def)

lemma BASE_TO_COLUMN_alphabet: "b \<in> alphabet \<longleftrightarrow> (\<exists>c. BASE_TO_COLUMN b = Some c)"
  by (auto simp: BASE_TO_COLUMN_cases alphabet_def)

lemma BASE_TO_COLUMN_bound: "BASE_TO_COLUMN b = Some c \<Longrightarrow> c < 5"
  by (auto simp: BASE_TO_COLUMN_cases split: if_splits)

lemma is_Column_get_or_self: "is_Column (get_or_self b) \<longleftrightarrow> b \<in> alphabet"
  by (auto simp: get_or_self_def BASE_TO_COLUMN_alphabet split: option.splits)

lemma the_column_get_or_self:
  "b \<in> alphabet \<Longrightarrow> the_column (get_or_self b) = the (BASE_TO_COLUMN b)"
  by (auto simp: get_or_self_def BASE_TO_COLUMN_alphabet)

lemma np_array_dtype_Int64:
  "np_array_dtype (map get_or_self s) = Int64 \<longleftrightarrow> s \<noteq> [] \<and> set s \<subseteq> alphabet"
  by (auto simp: np_array_dtype_def list_all_iff is_Column_get_or_self)

lemma map2_replicate_update:
  "map2 (\<lambda>row c. row[c := v]) (replicate (length cs) r) cs = map (\<lambda>c. r[c := v]) cs"
  by (induction cs) simp_all

text \<open>
  On a non-empty sequence over the alphabet the encoder returns one row per symbol,
  the zero row with a one written at the symbol's column.
\<close>

lemma get_one_hot_alphabet:
  assumes "sequence \<noteq> []" and "set sequence \<subseteq> alphabet"
  shows "get_one_hot sequence =
           Inr (map (\<lambda>b. (replicate 5 0)[the (BASE_TO_COLUMN b) := 1]) sequence)"
proof -
  have dt: "np_array_dtype (map get_or_self sequence) = Int64"
    using assms by (simp add: np_array_dtype_Int64)
  have cols: "map the_column (map get_or_self sequence)
                = map (\<lambda>b. the (BASE_TO_COLUMN b)) sequence"
    using assms(2) by (auto simp: the_column_get_or_self)
  have bound: "list_all (\<lambda>c. c < 5) (map (\<lambda>b. the (BASE_TO_COLUMN b)) sequence)"
    using assms(2) by (auto simp: list_all_iff BASE_TO_COLUMN_cases alphabet_def)
  have "assign_ones (replicate (length sequence) (replicate 5 0))
          (map (\<lambda>b. the (BASE_TO_COLUMN b)) sequence)
        = Inr (map (\<lambda>b. (replicate 5 0)[the (BASE_TO_COLUMN b) := 1]) sequence)"
    using bound map2_replicate_update[where v = "1::real" and r = "replicate 5 0"
        and cs = "map (\<lambda>b. the (BASE_TO_COLUMN b)) sequence"]
    by (simp add: assign_ones_def comp_def)
  then show ?thesis
    using dt cols by (simp add: get_one_hot_def Let_def del: map_map)
qed

lemma get_one_hot_outside_alphabet:
  assumes "\<not> set sequence \<subseteq> alphabet"
  shows "get_one_hot sequence = Inl IndexError"
  using assms by (simp add: get_one_hot_def Let_def np_array_dtype_Int64)

lemma one_hot_row:
  assumes "c < 5"
  shows "length ((replicate 5 (0::real))[c := 1]) = 5"
    and "sum_list ((replicate 5 (0::real))[c := 1]) = 1"
    and "j < 5 \<Longrightarrow> (replicate 5 (0::real))[c := 1] ! j = (if j = c then 1 else 0)"
proof -
  show "length ((replicate 5 (0::real))[c := 1]) = 5" by simp
  have "c \<in> {0, 1, 2, 3, 4}" using assms by auto
  then show "sum_list ((replicate 5 (0::real))[c := 1]) = 1"
    by (auto simp: numeral_eq_Suc)
  show "j < 5 \<Longrightarrow> (replicate 5 (0::real))[c := 1] ! j = (if j = c then 1 else 0)"
    using assms by (simp add: nth_list_update)
qed

text \<open>
  The one-hot property of the rows, for every non-empty sequence over the alphabet:
  the result has one row of five entries per symbol, each row sums to one, and its
  entry at column \<open>j\<close> is one exactly when \<open>j\<close> is the column of the symbol.
\<close>

lemma get_one_hot_rows:
  assumes "sequence \<noteq> []" and "set sequence \<subseteq> alphabet"
  shows "\<exists>M. get_one_hot sequence = Inr M \<and> length M = length sequence \<and>
           (\<forall>i < length sequence.
              length (M ! i) = 5 \<and> sum_list (M ! i) = 1 \<and>
              (\<forall>j < 5. M ! i ! j = (if BASE_TO_COLUMN (sequence ! i) = Some j then 1 else 0)))"
proof -
  let ?M = "map (\<lambda>b. (replicate 5 (0::real))[the (BASE_TO_COLUMN b) := 1]) sequence"
  have "length (?M ! i) = 5 \<and> sum_list (?M ! i) = 1 \<and>
        (\<forall>j < 5. ?M ! i ! j = (if BASE_TO_COLUMN (sequence ! i) = Some j then 1 else 0))"
    if "i < length sequence" for i
  proof -
    from that assms(2) have "sequence ! i \<in> alphabet"
      by (meson nth_mem subsetD)
    then obtain c where c: "BASE_TO_COLUMN (sequence ! i) = Some c"
      by (auto simp: BASE_TO_COLUMN_alphabet)
    then have "c < 5" by (rule BASE_TO_COLUMN_bound)
    then show ?thesis
      using that c one_hot_row[of c] by auto
  qed
  then show ?thesis
    using get_one_hot_alphabet[OF assms] by simp
qed

text \<open>
  Claim C4 (the encoder returns, for every sequence over the alphabet of length
  \<open>L\<close>, an \<open>L \<times> 5\<close> matrix with exactly one 1 per row at the symbol's column): the
  property holds for every non-empty sequence (\<open>get_one_hot_rows\<close>), but the empty
  sequence, for which the claim promises the matrix with no rows, makes the function
  raise \<^verbatim>\<open>IndexError\<close>: \<^verbatim>\<open>np.array([])\<close> is an array of floats, which numpy refuses
  as an index.
\<close>

theorem get_one_hot_empty_sequence: "get_one_hot [] = Inl IndexError"
  by (simp add: get_one_hot_def np_array_dtype_def)

text \<open>
  Claim C8, as amended: the encoder returns a matrix for every non-empty sequence
  over the alphabet, and raises \<^verbatim>\<open>IndexError\<close> for every sequence that contains a
  symbol outside the alphabet. The symbol is passed through into \<^verbatim>\<open>seq_in_index\<close>,
  which makes the index array an array of strings.
\<close>

theorem get_one_hot_returns_iff_alphabet:
  "(sequence \<noteq> [] \<and> set sequence \<subseteq> alphabet \<longrightarrow>
      (\<exists>M. get_one_hot sequence = Inr M \<and> length M = length sequence)) \<and>
   (\<not> set sequence \<subseteq> alphabet \<longrightarrow> get_one_hot sequence = Inl IndexError)"
  by (simp add: get_one_hot_alphabet get_one_hot_outside_alphabet)

theorem get_one_hot_returns_iff_alphabet_witness:
  "get_one_hot ''AC-T'' = Inr [[1, 0, 0, 0, 0], [0, 1, 0, 0, 0], [0, 0, 0, 0, 1], [0, 0, 1, 0, 0]]
   \<and> get_one_hot ''AN'' = Inl IndexError"
  using get_one_hot_returns_iff_alphabet[of "''AC-T''"]
    get_one_hot_returns_iff_alphabet[of "''AN''"]
  by (simp add: get_one_hot_alphabet alphabet_def BASE_TO_COLUMN_cases eval_nat_numeral)

text \<open>
  The claim as stated (a result for every finite sequence, also with symbols outside
  the alphabet) fails on the sequence \<^verbatim>\<open>ACNT\<close>.
\<close>

theorem get_one_hot_total_counterexample: "get_one_hot ''ACNT'' = Inl IndexError"
  by (simp add: get_one_hot_outside_alphabet alphabet_def)

section \<open>The masked weighted loss\<close>

lemma sum_list_mask:
  "sum_list (map (\<lambda>a. if a \<noteq> 0 then 1 else 0) alpha)
     = real (length (filter (\<lambda>a. a \<noteq> (0::real)) alpha))"
  by (induction alpha) simp_all

text \<open>
  The masked loss of one drug, by cases on the sign of its alpha value: the
  predicted probability enters through \<open>ln q\<close> with the factor \<open>\<bar>a\<bar>\<close> for a positive
  alpha and through \<open>ln (1 - q)\<close> with the factor \<open>1 - \<bar>a\<bar>\<close> for a negative one.
\<close>

lemma masked_bce_terms:
  assumes "length y_pred = length alpha"
  shows "map2 (\<lambda>b m. b * m)
           (map (\<lambda>(a, t, p). - a * t * ln p - (1 - a) * (1 - t) * ln (1 - p))
              (zip (map abs alpha)
                 (zip (map (\<lambda>a. if 0 < a then 1 else 0) alpha)
                    (map (\<lambda>p. K_clip p K_epsilon (1 - K_epsilon)) y_pred))))
           (map (\<lambda>a. if a \<noteq> 0 then 1 else 0) alpha)
         = map (\<lambda>(a, p).
                  if a = 0 then 0
                  else if 0 < a then - \<bar>a\<bar> * ln (K_clip p K_epsilon (1 - K_epsilon))
                  else - (1 - \<bar>a\<bar>) * ln (1 - K_clip p K_epsilon (1 - K_epsilon)))
             (zip alpha y_pred)"
  using assms
proof (induction y_pred alpha rule: list_induct2)
  case Nil
  show ?case by simp
next
  case (Cons p ps a as)
  then show ?case by (simp add: algebra_simps)
qed

lemma masked_multi_weighted_bce_sum:
  assumes "length y_pred = length alpha"
  shows "masked_multi_weighted_bce alpha y_pred =
           tf_divide
             (sum_list
                (map (\<lambda>(a, p).
                        if a = 0 then 0
                        else if 0 < a then - \<bar>a\<bar> * ln (K_clip p K_epsilon (1 - K_epsilon))
                        else - (1 - \<bar>a\<bar>) * ln (1 - K_clip p K_epsilon (1 - K_epsilon)))
                   (zip alpha y_pred)))
             (real (length (filter (\<lambda>a. a \<noteq> 0) alpha)))"
  unfolding masked_multi_weighted_bce_def Let_def
  by (simp only: masked_bce_terms[OF assms] sum_list_mask)

lemma K_clip_half: "K_clip (1 / 2) K_epsilon (1 - K_epsilon) = 1 / 2"
  by (simp add: K_clip_def K_epsilon_def)

text \<open>
  Claim C1, as amended: for alpha and prediction rows of the same length, the loss of
  an isolate is the sum over its labelled drugs (alpha not 0) of the class-weighted
  cross-entropy term, \<open>- \<bar>alpha\<bar> * ln q\<close> for a drug with positive alpha (pseudo-label
  1) and \<open>- (1 - \<bar>alpha\<bar>) * ln (1 - q)\<close> for a drug with negative alpha (pseudo-label
  0), where \<open>q\<close> is the prediction clipped to \<open>[epsilon, 1 - epsilon]\<close>, divided by the
  number of labelled drugs of that isolate: a mean over the labelled drugs only.
\<close>

theorem masked_multi_weighted_bce_labeled_mean:
  assumes "length y_pred = length alpha"
  shows "masked_multi_weighted_bce alpha y_pred =
           tf_divide
             (sum_list
                (map (\<lambda>(a, p).
                        if a = 0 then 0
                        else if 0 < a then - \<bar>a\<bar> * ln (K_clip p K_epsilon (1 - K_epsilon))
                        else - (1 - \<bar>a\<bar>) * ln (1 - K_clip p K_epsilon (1 - K_epsilon)))
                   (zip alpha y_pred)))
             (real (length (filter (\<lambda>a. a \<noteq> 0) alpha)))
         \<and> ((\<exists>a \<in> set alpha. a \<noteq> 0) \<longrightarrow>
              masked_multi_weighted_bce alpha y_pred =
                Fin (sum_list
                       (map (\<lambda>(a, p).
                               if a = 0 then 0
                               else if 0 < a
                                 then - \<bar>a\<bar> * ln (K_clip p K_epsilon (1 - K_epsilon))
                                 else - (1 - \<bar>a\<bar>) * ln (1 - K_clip p K_epsilon (1 - K_epsilon)))
                          (zip alpha y_pred))
                     / real (length (filter (\<lambda>a. a \<noteq> 0) alpha))))"
proof -
  have "filter (\<lambda>a. a \<noteq> 0) alpha \<noteq> []" if "\<exists>a \<in> set alpha. a \<noteq> 0"
    using that by (simp add: filter_empty_conv)
  then show ?thesis
    by (auto simp: masked_multi_weighted_bce_sum[OF assms] tf_divide_def)
qed

theorem masked_multi_weighted_bce_labeled_mean_witness:
  "masked_multi_weighted_bce [1 / 2, 0, - (1 / 4)] [1 / 2, 1 / 2, 1 / 2] = Fin (5 / 8 * ln 2)"
proof -
  have "- (ln (1 / 2 :: real)) = ln 2"
    by (simp add: ln_div)
  then show ?thesis
    using masked_multi_weighted_bce_labeled_mean[of "[1 / 2, 1 / 2, 1 / 2]" "[1 / 2, 0, - (1 / 4)]"]
    by (simp add: K_clip_half tf_divide_def)
qed

text \<open>
  The claim as stated (the cross-entropy of each drug multiplied by the weight
  \<open>\<bar>alpha\<bar>\<close>) fails for a drug with negative alpha: at alpha \<open>- 1/4\<close> and prediction
  \<open>1/2\<close> the function returns \<open>3/4 * ln 2\<close>, the weighted cross-entropy is
  \<open>1/4 * ln 2\<close>.
\<close>

theorem masked_multi_weighted_bce_weight_counterexample:
  "masked_multi_weighted_bce [- (1 / 4)] [1 / 2]
     \<noteq> mean_weighted_bce_over_labeled [- (1 / 4)] [1 / 2]"
proof -
  have l: "0 < ln (2 :: real)"
    by simp
  have a: "masked_multi_weighted_bce [- (1 / 4)] [1 / 2] = Fin (- (3 / 4) * ln (1 / 2))"
    by (simp add: masked_multi_weighted_bce_def K_clip_half tf_divide_def)
  have b: "mean_weighted_bce_over_labeled [- (1 / 4)] [1 / 2] = Fin (- (1 / 4) * ln (1 / 2))"
    by (simp add: mean_weighted_bce_over_labeled_def weighted_bce_per_drug_def K_clip_half
        tf_divide_def)
  have "- (3 / 4) * ln (1 / 2 :: real) = 3 / 4 * ln 2"
    and "- (1 / 4) * ln (1 / 2 :: real) = 1 / 4 * ln 2"
    by (simp_all add: ln_div)
  then show ?thesis using l by (simp add: a b)
qed

text \<open>
  Claim C7: for an isolate whose alpha row is all zeros the count of labelled
  drugs is zero and so is the masked sum, and the division yields not-a-number; in
  particular the loss is not the number 0.
\<close>

theorem masked_multi_weighted_bce_all_zero_nan:
  assumes "length y_pred = length alpha" and "\<forall>a \<in> set alpha. a = 0"
  shows "masked_multi_weighted_bce alpha y_pred = NaN
         \<and> masked_multi_weighted_bce alpha y_pred \<noteq> Fin 0"
proof -
  have f: "filter (\<lambda>a. a \<noteq> 0) alpha = []"
    using assms(2) by (simp add: filter_empty_conv)
  let ?loss = "\<lambda>(a :: real, p :: real).
                  if a = 0 then 0
                  else if 0 < a then - \<bar>a\<bar> * ln (K_clip p K_epsilon (1 - K_epsilon))
                  else - (1 - \<bar>a\<bar>) * ln (1 - K_clip p K_epsilon (1 - K_epsilon))"
  have "\<And>x. x \<in> set (zip alpha y_pred) \<Longrightarrow> ?loss x = 0"
    using assms(2) by (auto dest: set_zip_leftD)
  then have "sum_list (map ?loss (zip alpha y_pred)) = sum_list (map (\<lambda>_. 0) (zip alpha y_pred))"
    by (intro arg_cong[where f = sum_list] map_cong) simp_all
  then have s: "sum_list (map ?loss (zip alpha y_pred)) = 0"
    by simp
  show ?thesis
    by (simp add: masked_multi_weighted_bce_sum[OF assms(1)] f s tf_divide_def)
qed

theorem masked_multi_weighted_bce_all_zero_nan_witness:
  "masked_multi_weighted_bce [0, 0, 0] [1 / 5, 1 / 2, 9 / 10] = NaN"
  using masked_multi_weighted_bce_all_zero_nan[of "[1 / 5, 1 / 2, 9 / 10]" "[0, 0, 0]"]
  by simp

section \<open>The alpha matrix\<close>

lemma num_drugs_13: "num_drugs = 13"
  by (simp add: num_drugs_def drugs_def)

lemma len_squeeze_where_count:
  "len_squeeze_where (map P col) =
     (if length (filter P col) = 1 then Inl TypeError else Inr (length (filter P col)))"
  by (simp add: len_squeeze_where_def filter_map comp_def)

text \<open>One round of the loop, with the outcome of the two counts spelled out.\<close>

lemma alpha_loop_Cons:
  "alpha_loop Y w (d # ds) M =
     (if length Y \<le> d then Inl IndexError
      else if length (filter (\<lambda>y. y = 0) (Y ! d)) = 1 then Inl TypeError
      else if length (filter (\<lambda>y. y = 1) (Y ! d)) = 1 then Inl TypeError
      else if length (filter (\<lambda>y. y = 0) (Y ! d)) + length (filter (\<lambda>y. y = 1) (Y ! d)) = 0
        then Inl ZeroDivisionError
      else alpha_loop Y w ds (M[d := alpha_column w (Y ! d) (M ! d)]))"
  by (simp add: len_squeeze_where_count Let_def alpha_column_def resistant_fraction_def)

lemma alpha_loop_succeeds:
  assumes "\<forall>d \<in> set ds. d < length Y \<and>
             length (filter (\<lambda>y. y = 0) (Y ! d)) \<noteq> 1 \<and>
             length (filter (\<lambda>y. y = 1) (Y ! d)) \<noteq> 1 \<and>
             length (filter (\<lambda>y. y = 0) (Y ! d)) + length (filter (\<lambda>y. y = 1) (Y ! d)) \<noteq> 0"
  shows "\<exists>M'. alpha_loop Y w ds M = Inr M'"
  using assms
proof (induction ds arbitrary: M)
  case Nil
  show ?case by simp
next
  case (Cons d ds)
  then show ?case
    by (simp add: alpha_loop_Cons del: alpha_loop.simps)
qed

lemma alpha_loop_Inr:
  assumes "alpha_loop Y w ds M = Inr M'" and "distinct ds" and "length M = length Y"
  shows "length M' = length Y \<and>
         (\<forall>d. d \<notin> set ds \<longrightarrow> M' ! d = M ! d) \<and>
         (\<forall>d \<in> set ds. M' ! d = alpha_column w (Y ! d) (M ! d))"
  using assms
proof (induction ds arbitrary: M)
  case Nil
  then show ?case by simp
next
  case (Cons d ds)
  let ?M1 = "M[d := alpha_column w (Y ! d) (M ! d)]"
  from Cons.prems(1) have d: "d < length Y" and rest: "alpha_loop Y w ds ?M1 = Inr M'"
    by (auto simp: alpha_loop_Cons simp del: alpha_loop.simps split: if_splits)
  from Cons.prems have "distinct ds" "d \<notin> set ds" "length ?M1 = length Y"
    by simp_all
  note ih = Cons.IH[OF rest \<open>distinct ds\<close> \<open>length ?M1 = length Y\<close>]
  have here: "M' ! d = alpha_column w (Y ! d) (M ! d)"
    using ih \<open>d \<notin> set ds\<close> d Cons.prems(3) by simp
  have others: "M' ! d' = M ! d'" if "d' \<notin> set (d # ds)" for d'
    using ih that by simp
  have inrest: "M' ! d' = alpha_column w (Y ! d') (M ! d')" if "d' \<in> set ds" for d'
  proof -
    from that \<open>d \<notin> set ds\<close> have "d' \<noteq> d" by auto
    then have "?M1 ! d' = M ! d'" by simp
    with ih that show ?thesis by simp
  qed
  from ih here others inrest show ?case by auto
qed

lemma alpha_column_zeros:
  assumes "i < length col"
  shows "alpha_column w col (map (\<lambda>_. 0) col) ! i =
           (if col ! i = 0 then - resistant_fraction col
            else if col ! i = 1 then w * resistant_fraction col else 0)"
  using assms by (simp add: alpha_column_def)

lemma length_alpha_column: "length (alpha_column w col (map (\<lambda>_. 0) col)) = length col"
  by (simp add: alpha_column_def)

lemma resistant_fraction_bounds:
  "0 \<le> resistant_fraction col" "resistant_fraction col \<le> 1"
proof -
  let ?r = "length (filter (\<lambda>y. y = 0) col)"
  let ?s = "length (filter (\<lambda>y. y = 1) col)"
  show "0 \<le> resistant_fraction col"
    by (simp add: resistant_fraction_def)
  show "resistant_fraction col \<le> 1"
  proof (cases "?r + ?s = 0")
    case True
    then show ?thesis by (simp add: resistant_fraction_def)
  next
    case False
    then have "0 < real (?r + ?s)" by linarith
    moreover have "real ?r \<le> real (?r + ?s)" by simp
    ultimately have "real ?r / real (?r + ?s) \<le> 1"
      by (simp only: divide_le_eq_1_pos)
    then show ?thesis by (simp only: resistant_fraction_def)
  qed
qed

text \<open>
  Claim C2, as amended: for every weight and every label matrix that has at least
  the 13 columns of the function's fixed drug list and in whose first 13 columns the
  number of 0-labels and the number of 1-labels are each different from one and not
  both zero, \<^verbatim>\<open>alpha_mat\<close> returns a matrix of the same shape. In each of its first 13
  columns, with the resistant fraction of that column (a number between 0 and 1),
  every isolate with label 1 has the entry weight times resistant fraction, every
  isolate with label 0 has the entry minus resistant fraction, and every isolate with
  another label (the sentinel -1) has the entry 0. Every later column is all zero.
\<close>

theorem alpha_mat_entries:
  assumes cols: "num_drugs \<le> length subset_y"
    and counts: "\<forall>d < num_drugs.
             length (filter (\<lambda>y. y = 0) (subset_y ! d)) \<noteq> 1 \<and>
             length (filter (\<lambda>y. y = 1) (subset_y ! d)) \<noteq> 1 \<and>
             length (filter (\<lambda>y. y = 0) (subset_y ! d))
               + length (filter (\<lambda>y. y = 1) (subset_y ! d)) \<noteq> 0"
  shows "\<exists>alpha_matrix.
           alpha_mat subset_y df_geno_pheno weight = Inr alpha_matrix \<and>
           length alpha_matrix = length subset_y \<and>
           (\<forall>d < length subset_y.
              length (alpha_matrix ! d) = length (subset_y ! d) \<and>
              (\<forall>i < length (subset_y ! d).
                 if d < num_drugs then
                   0 \<le> resistant_fraction (subset_y ! d) \<and>
                   resistant_fraction (subset_y ! d) \<le> 1 \<and>
                   (subset_y ! d ! i = 1 \<longrightarrow>
                      alpha_matrix ! d ! i = weight * resistant_fraction (subset_y ! d)) \<and>
                   (subset_y ! d ! i = 0 \<longrightarrow>
                      alpha_matrix ! d ! i = - resistant_fraction (subset_y ! d)) \<and>
                   (subset_y ! d ! i \<noteq> 0 \<and> subset_y ! d ! i \<noteq> 1 \<longrightarrow> alpha_matrix ! d ! i = 0)
                 else alpha_matrix ! d ! i = 0))"
proof -
  let ?Z = "map (map (\<lambda>_. 0 :: real)) subset_y"
  have "\<forall>d \<in> set [0..<num_drugs]. d < length subset_y \<and>
             length (filter (\<lambda>y. y = 0) (subset_y ! d)) \<noteq> 1 \<and>
             length (filter (\<lambda>y. y = 1) (subset_y ! d)) \<noteq> 1 \<and>
             length (filter (\<lambda>y. y = 0) (subset_y ! d))
               + length (filter (\<lambda>y. y = 1) (subset_y ! d)) \<noteq> 0"
    using cols counts by auto
  from alpha_loop_succeeds[OF this]
  obtain M where M: "alpha_loop subset_y weight [0..<num_drugs] ?Z = Inr M"
    by blast
  then have res: "alpha_mat subset_y df_geno_pheno weight = Inr M"
    by (simp add: alpha_mat_def)
  from alpha_loop_Inr[OF M]
  have len: "length M = length subset_y"
    and out: "\<And>d. d \<notin> set [0..<num_drugs] \<Longrightarrow> M ! d = ?Z ! d"
    and ins: "\<And>d. d \<in> set [0..<num_drugs] \<Longrightarrow> M ! d = alpha_column weight (subset_y ! d) (?Z ! d)"
    by simp_all
  have col: "length (M ! d) = length (subset_y ! d) \<and>
              (\<forall>i < length (subset_y ! d).
                 if d < num_drugs then
                   0 \<le> resistant_fraction (subset_y ! d) \<and>
                   resistant_fraction (subset_y ! d) \<le> 1 \<and>
                   (subset_y ! d ! i = 1 \<longrightarrow>
                      M ! d ! i = weight * resistant_fraction (subset_y ! d)) \<and>
                   (subset_y ! d ! i = 0 \<longrightarrow>
                      M ! d ! i = - resistant_fraction (subset_y ! d)) \<and>
                   (subset_y ! d ! i \<noteq> 0 \<and> subset_y ! d ! i \<noteq> 1 \<longrightarrow> M ! d ! i = 0)
                 else M ! d ! i = 0)"
    if d: "d < length subset_y" for d
  proof (cases "d < num_drugs")
    case True
    then have "M ! d = alpha_column weight (subset_y ! d) (map (\<lambda>_. 0) (subset_y ! d))"
      using ins[of d] d by simp
    then show ?thesis
      using True by (simp add: alpha_column_zeros length_alpha_column resistant_fraction_bounds)
  next
    case False
    then have "M ! d = map (\<lambda>_. 0) (subset_y ! d)"
      using out[of d] d by simp
    then show ?thesis
      using False by simp
  qed
  show ?thesis
    using res len col by blast
qed


lemma upt_13: "[0..<13] = [0, 1, 2, 3, 4, 5, 6, 7, 8, 9, 10, 11, 12]"
  by code_simp

theorem alpha_mat_entries_witness:
  "\<exists>alpha_matrix.
     alpha_mat (replicate 14 [0, 0, 1, 1, - 1]) () 2 = Inr alpha_matrix \<and>
     alpha_matrix ! 0 ! 0 = - (1 / 2) \<and> alpha_matrix ! 0 ! 2 = 1 \<and>
     alpha_matrix ! 0 ! 4 = 0 \<and> alpha_matrix ! 13 ! 0 = 0"
proof -
  let ?Y = "replicate 14 [0, 0, 1, 1, - 1 :: int]"
  have rf: "resistant_fraction [0, 0, 1, 1, - 1] = 1 / 2"
    by (simp add: resistant_fraction_def)
  have cols: "num_drugs \<le> length ?Y"
    by (simp add: num_drugs_13)
  have counts: "\<forall>d < num_drugs.
             length (filter (\<lambda>y. y = 0) (?Y ! d)) \<noteq> 1 \<and>
             length (filter (\<lambda>y. y = 1) (?Y ! d)) \<noteq> 1 \<and>
             length (filter (\<lambda>y. y = 0) (?Y ! d))
               + length (filter (\<lambda>y. y = 1) (?Y ! d)) \<noteq> 0"
    by (simp add: num_drugs_13)
  from alpha_mat_entries[OF cols counts, of "()" 2]
  obtain M where M: "alpha_mat ?Y () 2 = Inr M"
    and cells: "\<forall>d < length ?Y.
              length (M ! d) = length (?Y ! d) \<and>
              (\<forall>i < length (?Y ! d).
                 if d < num_drugs then
                   0 \<le> resistant_fraction (?Y ! d) \<and>
                   resistant_fraction (?Y ! d) \<le> 1 \<and>
                   (?Y ! d ! i = 1 \<longrightarrow> M ! d ! i = 2 * resistant_fraction (?Y ! d)) \<and>
                   (?Y ! d ! i = 0 \<longrightarrow> M ! d ! i = - resistant_fraction (?Y ! d)) \<and>
                   (?Y ! d ! i \<noteq> 0 \<and> ?Y ! d ! i \<noteq> 1 \<longrightarrow> M ! d ! i = 0)
                 else M ! d ! i = 0)"
    by blast
  have c: "d < 14 \<Longrightarrow> i < 5 \<Longrightarrow>
            (if d < 13 then
               ([0, 0, 1, 1, - 1 :: int] ! i = 1 \<longrightarrow> M ! d ! i = 1) \<and>
               ([0, 0, 1, 1, - 1 :: int] ! i = 0 \<longrightarrow> M ! d ! i = - (1 / 2)) \<and>
               ([0, 0, 1, 1, - 1 :: int] ! i \<noteq> 0 \<and> [0, 0, 1, 1, - 1 :: int] ! i \<noteq> 1
                  \<longrightarrow> M ! d ! i = 0)
             else M ! d ! i = 0)" for d i
    using cells[rule_format, of d, THEN conjunct2, rule_format, of i]
    by (simp add: num_drugs_13 rf)
  from c[of 0 0] c[of 0 2] c[of 0 4] c[of 13 0] M show ?thesis
    by simp
qed

text \<open>
  The function stops on the first of its 13 columns without a labelled isolate, also
  when other columns have labels; and a column after the 13th is never filled.
\<close>

lemma alpha_mat_unlabelled_column:
  "alpha_mat ([0, 0, 1, 1] # replicate 12 [- 1, - 1, - 1, - 1]) () 1 = Inl ZeroDivisionError"
  by (simp add: alpha_mat_def num_drugs_13 upt_13 alpha_loop_Cons del: alpha_loop.simps(2))

lemma alpha_mat_fourteenth_column:
  "alpha_mat (replicate 14 [0, 0]) () 1 = Inr (replicate 13 [- 1, - 1] @ [[0, 0]])"
  by (simp add: alpha_mat_def num_drugs_13 upt_13 alpha_loop_Cons alpha_column_def
      resistant_fraction_def eval_nat_numeral del: alpha_loop.simps(2))

text \<open>
  A column with exactly one resistant (or exactly one sensitive) isolate makes the
  length of the squeezed index array undefined.
\<close>

lemma alpha_mat_single_resistant:
  "alpha_mat (replicate 13 [0, 1, 1]) () 1 = Inl TypeError"
  by (simp add: alpha_mat_def num_drugs_13 upt_13 alpha_loop_Cons del: alpha_loop.simps(2))

text \<open>
  The claim as stated (for every label matrix, each drug column with a label is filled
  from its own resistant fraction) fails in two ways: with labels in column 0 and no
  label in column 1 no matrix is returned, and in a matrix of 14 columns of resistant
  isolates the 14th column (resistant fraction 1) is left at 0 instead of -1.
\<close>

theorem alpha_mat_columns_counterexample:
  "alpha_mat ([0, 0, 1, 1] # replicate 12 [- 1, - 1, - 1, - 1]) () 1 = Inl ZeroDivisionError
   \<and> alpha_mat (replicate 14 [0, 0]) () 1 = Inr (replicate 13 [- 1, - 1] @ [[0, 0]])
   \<and> resistant_fraction [0, 0] = 1"
  by (simp add: alpha_mat_unlabelled_column alpha_mat_fourteenth_column resistant_fraction_def)

text \<open>
  Claim C10: the result of \<^verbatim>\<open>alpha_mat\<close> depends on the label matrix and the weight
  only; the argument \<^verbatim>\<open>df_geno_pheno\<close> is never read.
\<close>

theorem alpha_mat_ignores_df_geno_pheno:
  "alpha_mat subset_y d1 weight = alpha_mat subset_y d2 weight"
  by (simp add: alpha_mat_def)

section \<open>The phenotype encoder\<close>

lemma str_int_values:
  "str_int 0 = ''0''" "str_int 1 = ''1''" "str_int (- 1) = ''-1''"
  by (simp_all add: str_int_def str_nat.simps digit_chars_def)

lemma select_columns_Inr:
  "select_columns cols ds = Inr sel \<Longrightarrow>
     sel = map (\<lambda>d. (d, the (map_of cols d))) ds \<and> (\<forall>d \<in> set ds. map_of cols d \<noteq> None)"
  by (induction ds arbitrary: sel) (auto split: option.splits sum.splits)

lemma select_columns_zip:
  assumes "distinct ds" and "length cs = length ds"
  shows "select_columns (zip ds cs) ds = Inr (zip ds cs)"
proof -
  have "select_columns (zip ds cs) ds' = Inr (map (\<lambda>d. (d, the (map_of (zip ds cs) d))) ds')"
    if "set ds' \<subseteq> set ds" for ds'
    using that
  proof (induction ds')
    case Nil
    show ?case by simp
  next
    case (Cons d ds')
    then have "d \<in> set ds" by simp
    then obtain c where "map_of (zip ds cs) d = Some c"
      using assms(2) by (metis map_of_zip_is_Some option.exhaust_sel option.simps(3) not_Some_eq)
    with Cons show ?case by simp
  qed
  then have "select_columns (zip ds cs) ds = Inr (map (\<lambda>d. (d, the (map_of (zip ds cs) d))) ds)"
    by simp
  moreover have "map (\<lambda>d. (d, the (map_of (zip ds cs) d))) ds = zip ds cs"
    using assms
    by (intro nth_equalityI) (simp_all add: map_of_zip_nth)
  ultimately show ?thesis by simp
qed

lemma map2_same:
  "map2 f (map g xs) (map h xs) = map (\<lambda>x. f (g x) (h x)) xs"
  by (induction xs) simp_all

lemma encode_cells:
  "fold (assign_where rs) resistance_categories (map (map StrV) rs)
     = map (map encoded_string) rs"
proof -
  have step: "assign_where rs kv (map (map f) rs)
                = map (map (\<lambda>s. if s = fst kv then IntV (snd kv) else f s)) rs" for kv f
    unfolding assign_where_def
    by (induction rs) (simp_all add: map2_same[where g = "\<lambda>x. x", simplified])
  show ?thesis
    by (simp add: resistance_categories_def step encoded_string_def)
qed

lemma rs_encoding_to_numeric_selected:
  assumes "select_columns (columns df) ds = Inr sel"
  shows "rs_encoding_to_numeric df ds =
           Inr (\<lparr>index = map (\<lambda>i. IntV (int i)) [0..<length (index df)],
                 columns = zip (map fst sel) (map (map encoded_cell) (map snd sel))\<rparr>,
                map (map encoded_cell) (map snd sel))"
proof -
  have "rs_encoding_to_numeric df ds =
          Inr (\<lparr>index = map (\<lambda>i. IntV (int i)) [0..<length (index df)],
                columns = zip (map fst sel)
                  (map (map encoded_string)
                     (map (map astype_str) (map (map (fillna ''-1'')) (map snd sel))))\<rparr>,
               map snd (columns \<lparr>index = map (\<lambda>i. IntV (int i)) [0..<length (index df)],
                columns = zip (map fst sel)
                  (map (map encoded_string)
                     (map (map astype_str) (map (map (fillna ''-1'')) (map snd sel))))\<rparr>))"
    unfolding rs_encoding_to_numeric_def Let_def assms
    by (simp only: sum.case encode_cells)
  then show ?thesis
    by (simp add: comp_def encoded_cell_def[symmetric])
qed

lemma rs_encoding_to_numeric_Inr:
  assumes "rs_encoding_to_numeric df ds = Inr (y, arr)"
  shows "arr = map (\<lambda>d. map encoded_cell (the (map_of (columns df) d))) ds"
    and "y = \<lparr>index = map (\<lambda>i. IntV (int i)) [0..<length (index df)], columns = zip ds arr\<rparr>"
    and "\<forall>d \<in> set ds. map_of (columns df) d \<noteq> None"
proof -
  from assms obtain sel where sel: "select_columns (columns df) ds = Inr sel"
    by (auto simp: rs_encoding_to_numeric_def split: sum.splits)
  note s = select_columns_Inr[OF sel]
  from s show "\<forall>d \<in> set ds. map_of (columns df) d \<noteq> None" by simp
  have fst_sel: "map fst sel = ds"
    and snd_sel: "map snd sel = map (\<lambda>d. the (map_of (columns df) d)) ds"
    using s by (simp_all add: comp_def)
  from assms show "arr = map (\<lambda>d. map encoded_cell (the (map_of (columns df) d))) ds"
    unfolding rs_encoding_to_numeric_selected[OF sel] snd_sel by (simp add: comp_def)
  from assms
  show "y = \<lparr>index = map (\<lambda>i. IntV (int i)) [0..<length (index df)], columns = zip ds arr\<rparr>"
    unfolding rs_encoding_to_numeric_selected[OF sel] fst_sel by auto
qed

lemma rs_encoding_to_numeric_again:
  assumes "rs_encoding_to_numeric df ds = Inr (y, arr)" and "distinct ds"
  shows "rs_encoding_to_numeric y ds =
           Inr (y\<lparr>columns := zip ds (map (map encoded_cell) arr)\<rparr>, map (map encoded_cell) arr)"
proof -
  note r = rs_encoding_to_numeric_Inr[OF assms(1)]
  have len: "length arr = length ds"
    by (subst r(1)) simp
  have sel: "select_columns (columns y) ds = Inr (zip ds arr)"
    unfolding r(2) using select_columns_zip[OF assms(2) len] by simp
  show ?thesis
    unfolding rs_encoding_to_numeric_selected[OF sel]
    using len by (simp add: r(2))
qed

lemma encoded_cell_values:
  "encoded_cell (StrV ''R'') = IntV 0"
  "encoded_cell (StrV ''S'') = IntV 1"
  "encoded_cell NullV = IntV (- 1)"
  "astype_str c = ''-1'' \<or> astype_str c = ''-1.0'' \<Longrightarrow> encoded_cell c = IntV (- 1)"
  "encoded_cell (IntV (- 1)) = IntV (- 1)"
  "encoded_cell (IntV 0) = StrV ''0''"
  "encoded_cell (IntV 1) = StrV ''1''"
  "encoded_cell c = StrV s \<Longrightarrow> encoded_cell (StrV s) = StrV s"
  by (auto simp: encoded_cell_def encoded_string_def astype_str_def fillna_def str_int_values
      split: cell.splits if_splits)

lemma encoded_cell_stable:
  "encoded_cell (encoded_cell (encoded_cell c)) = encoded_cell (encoded_cell c)"
  by (auto simp: encoded_cell_def encoded_string_def astype_str_def fillna_def str_int_values
      split: cell.splits)

text \<open>
  Claim C5, as amended: the encoder maps \<^verbatim>\<open>R\<close> to 0, \<^verbatim>\<open>S\<close> to 1 and a missing entry
  (a null, or a cell whose string form is \<^verbatim>\<open>-1\<close> or \<^verbatim>\<open>-1.0\<close>) to -1. Encoding the
  encoded table again leaves every -1 and every unrecognised string as it is, but
  turns the numbers 0 and 1 into the strings \<^verbatim>\<open>0\<close> and \<^verbatim>\<open>1\<close>, which are no keys of
  \<^verbatim>\<open>resistance_categories\<close>; only from the second application on does encoding
  reproduce its input.
\<close>

theorem rs_encoding_to_numeric_reencoding:
  assumes enc: "rs_encoding_to_numeric df drugs_list = Inr (y_all, y_all_array)"
    and dist: "distinct drugs_list"
    and j: "j < length drugs_list"
    and col: "map_of (columns df) (drugs_list ! j) = Some col"
    and i: "i < length col"
  shows "length y_all_array = length drugs_list \<and> length (y_all_array ! j) = length col
     \<and> (col ! i = StrV ''R'' \<longrightarrow> y_all_array ! j ! i = IntV 0)
     \<and> (col ! i = StrV ''S'' \<longrightarrow> y_all_array ! j ! i = IntV 1)
     \<and> (col ! i = NullV \<or> astype_str (col ! i) = ''-1'' \<or> astype_str (col ! i) = ''-1.0''
          \<longrightarrow> y_all_array ! j ! i = IntV (- 1))
     \<and> (\<exists>y2 arr2. rs_encoding_to_numeric y_all drugs_list = Inr (y2, arr2)
          \<and> (y_all_array ! j ! i = IntV (- 1) \<longrightarrow> arr2 ! j ! i = IntV (- 1))
          \<and> (y_all_array ! j ! i = IntV 0 \<longrightarrow> arr2 ! j ! i = StrV ''0'')
          \<and> (y_all_array ! j ! i = IntV 1 \<longrightarrow> arr2 ! j ! i = StrV ''1'')
          \<and> (\<forall>s. y_all_array ! j ! i = StrV s \<longrightarrow> arr2 ! j ! i = StrV s)
          \<and> rs_encoding_to_numeric y2 drugs_list = Inr (y2, arr2))"
proof -
  note r = rs_encoding_to_numeric_Inr[OF enc]
  let ?arr2 = "map (map encoded_cell) y_all_array"
  let ?y2 = "y_all\<lparr>columns := zip drugs_list ?arr2\<rparr>"
  have len: "length y_all_array = length drugs_list"
    by (subst r(1)) simp
  have colj: "y_all_array ! j = map encoded_cell col"
    using j col by (subst r(1)) simp
  have cell: "y_all_array ! j ! i = encoded_cell (col ! i)"
    using i by (simp add: colj)
  have cell2: "?arr2 ! j ! i = encoded_cell (y_all_array ! j ! i)"
    using i j len by (simp add: colj)
  have again: "rs_encoding_to_numeric y_all drugs_list = Inr (?y2, ?arr2)"
    by (rule rs_encoding_to_numeric_again[OF enc dist])
  have st: "map (map encoded_cell) ?arr2 = ?arr2"
    unfolding r(1) by (simp add: comp_def encoded_cell_stable)
  have third: "rs_encoding_to_numeric ?y2 drugs_list = Inr (?y2, ?arr2)"
    using rs_encoding_to_numeric_again[OF again dist] unfolding st by simp
  have f1: "col ! i = StrV ''R'' \<longrightarrow> y_all_array ! j ! i = IntV 0"
    using encoded_cell_values(1) by (simp add: cell)
  have f2: "col ! i = StrV ''S'' \<longrightarrow> y_all_array ! j ! i = IntV 1"
    using encoded_cell_values(2) by (simp add: cell)
  have f3: "col ! i = NullV \<or> astype_str (col ! i) = ''-1'' \<or> astype_str (col ! i) = ''-1.0''
          \<longrightarrow> y_all_array ! j ! i = IntV (- 1)"
    using encoded_cell_values(3) encoded_cell_values(4)[of "col ! i"] by (auto simp: cell)
  have s1: "y_all_array ! j ! i = IntV (- 1) \<longrightarrow> ?arr2 ! j ! i = IntV (- 1)"
    using encoded_cell_values(5) by (simp add: cell2)
  have s2: "y_all_array ! j ! i = IntV 0 \<longrightarrow> ?arr2 ! j ! i = StrV ''0''"
    using encoded_cell_values(6) by (simp add: cell2)
  have s3: "y_all_array ! j ! i = IntV 1 \<longrightarrow> ?arr2 ! j ! i = StrV ''1''"
    using encoded_cell_values(7) by (simp add: cell2)
  have s4: "\<forall>s. y_all_array ! j ! i = StrV s \<longrightarrow> ?arr2 ! j ! i = StrV s"
  proof (intro allI impI)
    fix s assume "y_all_array ! j ! i = StrV s"
    then have "encoded_cell (col ! i) = StrV s"
      by (simp only: cell)
    then have "encoded_cell (StrV s) = StrV s"
      by (rule encoded_cell_values(8))
    then show "?arr2 ! j ! i = StrV s"
      using \<open>y_all_array ! j ! i = StrV s\<close> by (simp only: cell2)
  qed
  have lenj: "length (y_all_array ! j) = length col"
    by (simp add: colj)
  from len lenj f1 f2 f3 again s1 s2 s3 s4 third show ?thesis
    by blast
qed

lemma rs_encoding_to_numeric_example: "rs_encoding_to_numeric
      \<lparr>index = [StrV ''iso1'', StrV ''iso2'', StrV ''iso3''],
       columns = [(''RIFAMPICIN'', [StrV ''R'', NullV, StrV ''S''])]\<rparr> [''RIFAMPICIN'']
    = Inr (\<lparr>index = [IntV 0, IntV 1, IntV 2],
            columns = [(''RIFAMPICIN'', [IntV 0, IntV (- 1), IntV 1])]\<rparr>,
           [[IntV 0, IntV (- 1), IntV 1]])"
  by (simp add: rs_encoding_to_numeric_def resistance_categories_def assign_where_def
        fillna_def astype_str_def)

lemma rs_encoding_to_numeric_example_again: "rs_encoding_to_numeric
      \<lparr>index = [IntV 0, IntV 1, IntV 2],
            columns = [(''RIFAMPICIN'', [IntV 0, IntV (- 1), IntV 1])]\<rparr> [''RIFAMPICIN'']
    = Inr (\<lparr>index = [IntV 0, IntV 1, IntV 2],
            columns = [(''RIFAMPICIN'', [StrV ''0'', IntV (- 1), StrV ''1''])]\<rparr>,
           [[StrV ''0'', IntV (- 1), StrV ''1'']])"
  by (simp add: rs_encoding_to_numeric_def resistance_categories_def assign_where_def
        fillna_def astype_str_def str_int_values)


theorem rs_encoding_to_numeric_reencoding_witness:
  "rs_encoding_to_numeric
      \<lparr>index = [StrV ''iso1'', StrV ''iso2'', StrV ''iso3''],
       columns = [(''RIFAMPICIN'', [StrV ''R'', NullV, StrV ''S''])]\<rparr> [''RIFAMPICIN'']
    = Inr (\<lparr>index = [IntV 0, IntV 1, IntV 2],
            columns = [(''RIFAMPICIN'', [IntV 0, IntV (- 1), IntV 1])]\<rparr>,
           [[IntV 0, IntV (- 1), IntV 1]])
   \<and> (\<exists>y2 arr2.
         rs_encoding_to_numeric
           \<lparr>index = [IntV 0, IntV 1, IntV 2],
            columns = [(''RIFAMPICIN'', [IntV 0, IntV (- 1), IntV 1])]\<rparr> [''RIFAMPICIN'']
           = Inr (y2, arr2)
         \<and> arr2 ! 0 ! 0 = StrV ''0''
         \<and> rs_encoding_to_numeric y2 [''RIFAMPICIN''] = Inr (y2, arr2))"
proof -
  note e = rs_encoding_to_numeric_example
  have d: "distinct [''RIFAMPICIN'']" by simp
  have c: "map_of (columns \<lparr>index = [StrV ''iso1'', StrV ''iso2'', StrV ''iso3''],
       columns = [(''RIFAMPICIN'', [StrV ''R'', NullV, StrV ''S''])]\<rparr>) ([''RIFAMPICIN''] ! 0)
         = Some [StrV ''R'', NullV, StrV ''S'']"
    by simp
  show ?thesis
    using rs_encoding_to_numeric_reencoding[OF e d _ c, of 0] e by auto
qed

text \<open>
  The claim as stated (encoding the encoder's output yields the same values) fails on
  a table with one \<^verbatim>\<open>R\<close> and one \<^verbatim>\<open>S\<close> entry: the first encoding gives the numbers
  0 and 1, the second the strings \<^verbatim>\<open>0\<close> and \<^verbatim>\<open>1\<close>.
\<close>

theorem rs_encoding_to_numeric_idempotence_counterexample:
  "rs_encoding_to_numeric
      \<lparr>index = [StrV ''iso1'', StrV ''iso2'', StrV ''iso3''],
       columns = [(''RIFAMPICIN'', [StrV ''R'', NullV, StrV ''S''])]\<rparr> [''RIFAMPICIN'']
    = Inr (\<lparr>index = [IntV 0, IntV 1, IntV 2],
            columns = [(''RIFAMPICIN'', [IntV 0, IntV (- 1), IntV 1])]\<rparr>,
           [[IntV 0, IntV (- 1), IntV 1]])
   \<and> rs_encoding_to_numeric
      \<lparr>index = [IntV 0, IntV 1, IntV 2],
       columns = [(''RIFAMPICIN'', [IntV 0, IntV (- 1), IntV 1])]\<rparr> [''RIFAMPICIN'']
    = Inr (\<lparr>index = [IntV 0, IntV 1, IntV 2],
            columns = [(''RIFAMPICIN'', [StrV ''0'', IntV (- 1), StrV ''1''])]\<rparr>,
           [[StrV ''0'', IntV (- 1), StrV ''1'']])"
  by (simp add: rs_encoding_to_numeric_example rs_encoding_to_numeric_example_again)

section \<open>The train/test splitter\<close>

lemma take_rows_query_index:
  assumes "length es = length X_all"
  shows "take_rows X_all (query_index P es) = Inr (map (\<lambda>i. X_all ! i) (query_index P es))"
  using assms by (simp add: take_rows_def query_index_def list_all_iff)

text \<open>
  With the two file names bound, the function returns the rows whose category
  equals the target and the rows whose category differs; the two sets of positions
  are disjoint, cover every row once and are in increasing order.
\<close>

lemma split_into_traintest_partition:
  assumes names: "''pkl_file_sparse_train'' \<in> set globals" "''pkl_file_sparse_test'' \<in> set globals"
    and cats: "map_of (table_columns df) ''category'' = Some cats"
    and len: "length cats = length X"
  shows "\<exists>train test.
           split_into_traintest globals X df category
             = Inr (map (\<lambda>i. X ! i) train, map (\<lambda>i. X ! i) test) \<and>
           train = filter (\<lambda>i. cats ! i = Scalar (StrV category)) [0..<length X] \<and>
           test = filter (\<lambda>i. cats ! i \<noteq> Scalar (StrV category)) [0..<length X] \<and>
           set train \<inter> set test = {} \<and> set train \<union> set test = {0..<length X} \<and>
           distinct train \<and> distinct test \<and> sorted train \<and> sorted test"
proof -
  let ?train = "query_index (\<lambda>e. e = Scalar (StrV category)) cats"
  let ?test = "query_index (\<lambda>e. e \<noteq> Scalar (StrV category)) cats"
  have "split_into_traintest globals X df category
          = Inr (map (\<lambda>i. X ! i) ?train, map (\<lambda>i. X ! i) ?test)"
    using names cats by (simp add: split_into_traintest_def take_rows_query_index[OF len])
  moreover have "set ?train \<inter> set ?test = {}" "set ?train \<union> set ?test = {0..<length X}"
    using len by (auto simp: query_index_def)
  moreover have "distinct ?train" "distinct ?test" "sorted ?train" "sorted ?test"
    by (simp_all add: query_index_def sorted_wrt_filter)
  ultimately show ?thesis
    using len by (simp add: query_index_def)
qed

text \<open>
  In the module as it is, neither name is bound, so no call returns.
\<close>

lemma split_into_traintest_module_never_returns:
  "split_into_traintest module_globals X df category \<noteq> Inr r"
  by (simp add: split_into_traintest_def module_globals_def Let_def
      split: option.splits sum.splits)

text \<open>
  Claim C9 (the splitter returns the two row sets, disjoint, exhaustive and in the
  order of the input): the function computes these row sets
  (\<open>split_into_traintest_partition\<close>) but then reads the undefined name
  \<^verbatim>\<open>pkl_file_sparse_train\<close> and raises \<^verbatim>\<open>NameError\<close> instead of returning them.
\<close>

theorem split_into_traintest_module_raises:
  "split_into_traintest module_globals [x0, x1, x2]
     \<lparr>strains = [''s0'', ''s1'', ''s2''],
      table_columns =
        [(''category'',
          [Scalar (StrV ''set1''), Scalar (StrV ''set2''), Scalar (StrV ''set1'')])]\<rparr>
     ''set1''
   = Inl (NameError ''pkl_file_sparse_train'')"
  by (simp add: split_into_traintest_def module_globals_def query_index_def take_rows_def)

section \<open>The tensor assembler\<close>

text \<open>
  The shapes dictionary lists the columns whose label contains \<^verbatim>\<open>one_hot\<close>, in table
  order, each with the number of rows of the matrix in the first table row.
\<close>

lemma get_shapes_loci:
  assumes "\<forall>(c, es) \<in> set cols. contains ''one_hot'' c \<longrightarrow> (\<exists>m rest. es = OneHot m # rest)"
  shows "get_shapes cols =
           Inr (map (\<lambda>(c, es). (c, length (matrix (hd es))))
                  (filter (\<lambda>(c, es). contains ''one_hot'' c) cols))"
  using assms
proof (induction cols)
  case Nil
  show ?case by simp
next
  case (Cons p cols)
  obtain c es where p: "p = (c, es)" by (cases p)
  show ?case
  proof (cases "contains ''one_hot'' c")
    case True
    with Cons.prems p obtain m rest where "es = OneHot m # rest" by auto
    with Cons True p show ?thesis by simp
  next
    case False
    with Cons p show ?thesis by simp
  qed
qed

text \<open>
  One assignment writes the matrix into the first positions of the length axis of
  one isolate and one locus, and changes nothing else.
\<close>

lemma assign_locus_OneHot:
  assumes "shape X = (n, 5, L, G)" and "idx < n" and "g < G" and "length m \<le> L"
    and "\<forall>row \<in> set m. length row = 5"
  shows "\<exists>X'. assign_locus X idx g (OneHot m) = Inr X' \<and> shape X' = shape X \<and>
           (\<forall>i c l g'. elems X' i c l g' =
              (if i = idx \<and> g' = g \<and> l < length m \<and> c < 5 then m ! l ! c
               else elems X i c l g'))"
  using assms by (auto simp: assign_locus_def list_all_iff fun_eq_iff)

text \<open>The two loops, by induction on the loci and on the strains that remain.\<close>

lemma gene_loop_elems:
  assumes "shape X = (n, 5, L, G)" and "idx < n"
    and "\<forall>(gi, gene) \<in> set genes. gi < G \<and>
           (\<exists>es. map_of cols gene = Some es \<and> idx < length es \<and> es ! idx = OneHot (mat gi)) \<and>
           length (mat gi) \<le> L \<and> (\<forall>row \<in> set (mat gi). length row = 5)"
  shows "\<exists>X'. gene_loop cols idx genes X = Inr X' \<and> shape X' = shape X \<and>
           (\<forall>i c l g. elems X' i c l g =
              (if i = idx \<and> g \<in> fst ` set genes \<and> l < length (mat g) \<and> c < 5
               then mat g ! l ! c else elems X i c l g))"
  using assms
proof (induction genes arbitrary: X)
  case Nil
  show ?case by simp
next
  case (Cons p genes)
  obtain gi gene where p: "p = (gi, gene)" by (cases p)
  from Cons.prems(3) p obtain es where gi: "gi < G" and es: "map_of cols gene = Some es"
    "idx < length es" "es ! idx = OneHot (mat gi)"
    and m: "length (mat gi) \<le> L" "\<forall>row \<in> set (mat gi). length row = 5"
    by auto
  from assign_locus_OneHot[OF Cons.prems(1,2) gi m]
  obtain X1 where X1: "assign_locus X idx gi (OneHot (mat gi)) = Inr X1" "shape X1 = shape X"
    and e1: "\<And>i c l g'. elems X1 i c l g' =
              (if i = idx \<and> g' = gi \<and> l < length (mat gi) \<and> c < 5 then mat gi ! l ! c
               else elems X i c l g')"
    by blast
  have "shape X1 = (n, 5, L, G)" using X1(2) Cons.prems(1) by simp
  from Cons.IH[OF this Cons.prems(2)] Cons.prems(3)
  obtain X' where X': "gene_loop cols idx genes X1 = Inr X'" "shape X' = shape X1"
    and e': "\<And>i c l g. elems X' i c l g =
              (if i = idx \<and> g \<in> fst ` set genes \<and> l < length (mat g) \<and> c < 5
               then mat g ! l ! c else elems X1 i c l g)"
    by auto
  have "gene_loop cols idx (p # genes) X = Inr X'"
    using p es X1(1) X'(1) by simp
  moreover have "shape X' = shape X"
    using X'(2) X1(2) by simp
  moreover have "elems X' i c l g =
              (if i = idx \<and> g \<in> fst ` set (p # genes) \<and> l < length (mat g) \<and> c < 5
               then mat g ! l ! c else elems X i c l g)" for i c l g
    unfolding e' e1 using p by auto
  ultimately show ?case by blast
qed

lemma strain_loop_elems:
  assumes "shape X = (n, 5, L, G)"
    and "\<forall>idx \<in> set idxs. idx < n \<and>
          (\<forall>(gi, gene) \<in> set genes. gi < G \<and>
             (\<exists>es. map_of cols gene = Some es \<and> idx < length es \<and> es ! idx = OneHot (mat idx gi)) \<and>
             length (mat idx gi) \<le> L \<and> (\<forall>row \<in> set (mat idx gi). length row = 5))"
  shows "\<exists>X'. strain_loop cols genes idxs X = Inr X' \<and> shape X' = shape X \<and>
           (\<forall>i c l g. elems X' i c l g =
              (if i \<in> set idxs \<and> g \<in> fst ` set genes \<and> l < length (mat i g) \<and> c < 5
               then mat i g ! l ! c else elems X i c l g))"
  using assms
proof (induction idxs arbitrary: X)
  case Nil
  show ?case by simp
next
  case (Cons idx idxs)
  from Cons.prems(2) have idx: "idx < n"
    and genes: "\<forall>(gi, gene) \<in> set genes. gi < G \<and>
             (\<exists>es. map_of cols gene = Some es \<and> idx < length es \<and> es ! idx = OneHot (mat idx gi)) \<and>
             length (mat idx gi) \<le> L \<and> (\<forall>row \<in> set (mat idx gi). length row = 5)"
    by simp_all
  from gene_loop_elems[OF Cons.prems(1) idx genes]
  obtain X1 where X1: "gene_loop cols idx genes X = Inr X1" "shape X1 = shape X"
    and e1: "\<And>i c l g. elems X1 i c l g =
              (if i = idx \<and> g \<in> fst ` set genes \<and> l < length (mat idx g) \<and> c < 5
               then mat idx g ! l ! c else elems X i c l g)"
    by blast
  have "shape X1 = (n, 5, L, G)" using X1(2) Cons.prems(1) by simp
  from Cons.IH[OF this] Cons.prems(2)
  obtain X' where X': "strain_loop cols genes idxs X1 = Inr X'" "shape X' = shape X1"
    and e': "\<And>i c l g. elems X' i c l g =
              (if i \<in> set idxs \<and> g \<in> fst ` set genes \<and> l < length (mat i g) \<and> c < 5
               then mat i g ! l ! c else elems X1 i c l g)"
    by auto
  have "strain_loop cols genes (idx # idxs) X = Inr X'"
    using X1(1) X'(1) by simp
  moreover have "shape X' = shape X"
    using X'(2) X1(2) by simp
  moreover have "elems X' i c l g =
              (if i \<in> set (idx # idxs) \<and> g \<in> fst ` set genes \<and> l < length (mat i g) \<and> c < 5
               then mat i g ! l ! c else elems X i c l g)" for i c l g
    unfolding e' e1 by auto
  ultimately show ?case by blast
qed


text \<open>
  Claim C6: for a merged table with \<open>N\<close> isolates (at least one) and distinct column
  labels, whose one-hot columns (at least one, the loci) hold in every row a matrix
  of five columns with as many rows as the matrix in the first row of that column,
  \<^verbatim>\<open>create_X\<close> returns a tensor of shape \<open>(N, 5, L_max, N_loci)\<close>, where \<open>L_max\<close> is
  the maximum of the locus lengths; for each isolate and locus the entries at the
  positions below the locus length are those of the one-hot matrix (transposed), and
  every entry at a position from the locus length on is zero.
\<close>

theorem create_X_padded_tensor:
  fixes df :: geno_table
  defines "loci \<equiv> filter (\<lambda>(c, es). contains ''one_hot'' c) (table_columns df)"
  defines "N \<equiv> length (strains df)"
  defines "L_max \<equiv> Max (set (map (\<lambda>(c, es). length (matrix (hd es))) loci))"
  assumes names: "distinct (map fst (table_columns df))"
    and rows: "0 < N"
    and some: "loci \<noteq> []"
    and cells: "\<forall>(c, es) \<in> set loci. length es = N \<and>
                  (\<forall>e \<in> set es. \<exists>m. e = OneHot m \<and> length m = length (matrix (hd es)) \<and>
                                  (\<forall>row \<in> set m. length row = 5))"
  shows "\<exists>X. create_X df = Inr X \<and> shape X = (N, 5, L_max, length loci) \<and>
           (\<forall>i < N. \<forall>g < length loci. \<forall>c < 5. \<forall>l < L_max.
              elems X i c l g =
                (if l < length (matrix (snd (loci ! g) ! i))
                 then matrix (snd (loci ! g) ! i) ! l ! c else 0))"
proof -
  let ?cols = "table_columns df"
  let ?shapes = "map (\<lambda>(c, es). (c, length (matrix (hd es)))) loci"
  let ?genes = "zip [0..<length loci] (map fst loci)"
  let ?mat = "\<lambda>i g. matrix (snd (loci ! g) ! i)"
  have "\<forall>(c, es) \<in> set ?cols. contains ''one_hot'' c \<longrightarrow> (\<exists>m rest. es = OneHot m # rest)"
  proof (intro ballI, clarify)
    fix c es assume "(c, es) \<in> set ?cols" "contains ''one_hot'' c"
    then have "(c, es) \<in> set loci" by (simp add: loci_def)
    with cells rows have "length es = N" "\<forall>e \<in> set es. \<exists>m. e = OneHot m" "es \<noteq> []"
      by fastforce+
    then show "\<exists>m rest. es = OneHot m # rest"
      by (cases es) auto
  qed
  from get_shapes_loci[OF this] have shapes: "get_shapes ?cols = Inr ?shapes"
    by (simp add: loci_def)
  have snd_shapes: "map snd ?shapes = map (\<lambda>(c, es). length (matrix (hd es))) loci"
    and fst_shapes: "map fst ?shapes = map fst loci"
    by (simp_all add: comp_def case_prod_unfold)
  have run: "create_X df =
               strain_loop ?cols ?genes [0..<N] (np_zeros4 (N, 5, L_max, length loci))"
    using some unfolding create_X_def shapes Let_def L_max_def N_def
    by (simp add: comp_def case_prod_unfold)
  have genes: "idx < N \<and>
          (\<forall>(gi, gene) \<in> set ?genes. gi < length loci \<and>
             (\<exists>es. map_of ?cols gene = Some es \<and> idx < length es \<and> es ! idx = OneHot (?mat idx gi)) \<and>
             length (?mat idx gi) \<le> L_max \<and> (\<forall>row \<in> set (?mat idx gi). length row = 5))"
    if "idx \<in> set [0..<N]" for idx
  proof (intro conjI ballI, goal_cases)
    case 1
    from that show ?case by simp
  next
    case (2 p)
    obtain gi gene where p: "p = (gi, gene)" by (cases p)
    with 2 have gi: "gi < length loci" and gene: "gene = fst (loci ! gi)"
      by (auto simp: set_zip)
    obtain c es where ces: "loci ! gi = (c, es)" by (cases "loci ! gi")
    with gi have mem: "(c, es) \<in> set loci"
      by (metis nth_mem)
    then have incols: "(c, es) \<in> set ?cols" by (simp add: loci_def)
    with names have look: "map_of ?cols c = Some es" by simp
    from cells mem have len: "length es = N"
      and all: "\<forall>e \<in> set es. \<exists>m. e = OneHot m \<and> length m = length (matrix (hd es)) \<and>
                                  (\<forall>row \<in> set m. length row = 5)"
      by auto
    from that len have idx: "idx < length es" by simp
    then have "es ! idx \<in> set es" by simp
    with all obtain m where m: "es ! idx = OneHot m" "length m = length (matrix (hd es))"
      "\<forall>row \<in> set m. length row = 5"
      by blast
    have "length (matrix (hd es)) \<in> set (map (\<lambda>(c, es). length (matrix (hd es))) loci)"
      using mem by force
    then have "length (matrix (hd es)) \<le> L_max"
      unfolding L_max_def by (intro Max_ge) simp_all
    with m look idx gi gene ces p show ?case
      by simp
  qed
  have sh: "shape (np_zeros4 (N, 5, L_max, length loci)) = (N, 5, L_max, length loci)"
    by (simp add: np_zeros4_def)
  from strain_loop_elems[OF sh, of "[0..<N]" ?genes ?cols ?mat] genes
  obtain X where X: "strain_loop ?cols ?genes [0..<N] (np_zeros4 (N, 5, L_max, length loci)) = Inr X"
      "shape X = (N, 5, L_max, length loci)"
    and el: "\<And>i c l g. elems X i c l g =
              (if i \<in> set [0..<N] \<and> g \<in> fst ` set ?genes \<and> l < length (?mat i g) \<and> c < 5
               then ?mat i g ! l ! c else elems (np_zeros4 (N, 5, L_max, length loci)) i c l g)"
    unfolding sh by blast
  have fstg: "fst ` set ?genes = {0..<length loci}"
    by (metis (no_types) length_map length_upt map_fst_zip set_map set_upt minus_nat.diff_0)
  have "elems X i c l g = (if l < length (?mat i g) then ?mat i g ! l ! c else 0)"
    if "i < N" "g < length loci" "c < 5" for i c l g
    using that by (simp add: el fstg np_zeros4_def)
  with run X show ?thesis by simp
qed


theorem create_X_padded_tensor_witness:
  "\<exists>X. create_X
          \<lparr>strains = [''s1'', ''s2''],
           table_columns =
             [(''geneA_one_hot'',
               [OneHot [[1, 0, 0, 0, 0], [0, 1, 0, 0, 0]],
                OneHot [[0, 0, 1, 0, 0], [0, 0, 0, 0, 1]]]),
              (''geneA'', [Scalar (StrV ''AC''), Scalar (StrV ''T-'')]),
              (''geneB_one_hot'', [OneHot [[0, 0, 0, 1, 0]], OneHot [[1, 0, 0, 0, 0]]])]\<rparr>
        = Inr X \<and>
      shape X = (2, 5, 2, 2) \<and> elems X 0 1 1 0 = 1 \<and> elems X 1 0 0 1 = 1 \<and>
      elems X 1 0 1 1 = 0"
proof -
  let ?df = "\<lparr>strains = [''s1'', ''s2''],
           table_columns =
             [(''geneA_one_hot'',
               [OneHot [[1, 0, 0, 0, 0], [0, 1, 0, 0, 0]],
                OneHot [[0, 0, 1, 0, 0], [0, 0, 0, 0, 1]]]),
              (''geneA'', [Scalar (StrV ''AC''), Scalar (StrV ''T-'')]),
              (''geneB_one_hot'', [OneHot [[0, 0, 0, 1, 0]], OneHot [[1, 0, 0, 0, 0]]])]\<rparr>"
  have loci: "filter (\<lambda>(c, es). contains ''one_hot'' c) (table_columns ?df) =
      [(''geneA_one_hot'',
               [OneHot [[1, 0, 0, 0, 0], [0, 1, 0, 0, 0]],
                OneHot [[0, 0, 1, 0, 0], [0, 0, 0, 0, 1]]]),
       (''geneB_one_hot'', [OneHot [[0, 0, 0, 1, 0]], OneHot [[1, 0, 0, 0, 0]]])]"
    by simp
  have h1: "distinct (map fst (table_columns ?df))" by simp
  have h2: "0 < length (strains ?df)" by simp
  have h3: "filter (\<lambda>(c, es). contains ''one_hot'' c) (table_columns ?df) \<noteq> []"
    unfolding loci by simp
  have h4: "\<forall>(c, es) \<in> set (filter (\<lambda>(c, es). contains ''one_hot'' c) (table_columns ?df)).
               length es = length (strains ?df) \<and>
                  (\<forall>e \<in> set es. \<exists>m. e = OneHot m \<and> length m = length (matrix (hd es)) \<and>
                                  (\<forall>row \<in> set m. length row = 5))"
    unfolding loci by simp
  from create_X_padded_tensor[OF h1 h2 h3 h4]
  obtain X where X: "create_X ?df = Inr X"
    and sh: "shape X = (2, 5, 2, 2)"
    and el: "\<forall>i < 2. \<forall>g < 2. \<forall>c < 5. \<forall>l < 2.
              elems X i c l g =
                (if l < length (matrix (snd ([(''geneA_one_hot'',
               [OneHot [[1, 0, 0, 0, 0], [0, 1, 0, 0, 0]],
                OneHot [[0, 0, 1, 0, 0], [0, 0, 0, 0, 1]]]),
       (''geneB_one_hot'', [OneHot [[0, 0, 0, 1, 0]], OneHot [[1, 0, 0, 0, 0]]])] ! g) ! i))
                 then matrix (snd ([(''geneA_one_hot'',
               [OneHot [[1, 0, 0, 0, 0], [0, 1, 0, 0, 0]],
                OneHot [[0, 0, 1, 0, 0], [0, 0, 0, 0, 1]]]),
       (''geneB_one_hot'', [OneHot [[0, 0, 0, 1, 0]], OneHot [[1, 0, 0, 0, 0]]])] ! g) ! i) ! l ! c else 0)"
    unfolding loci by auto
  from el[rule_format, of 0 0 1 1] el[rule_format, of 1 1 0 0] el[rule_format, of 1 1 0 1]
  have "elems X 0 1 1 0 = 1" "elems X 1 0 0 1 = 1" "elems X 1 0 1 1 = 0"
    by simp_all
  with X sh show ?thesis by blast
qed

end
